theory Spec2Isabelle
  imports Complex_Main "HOL-Library.Sublist"
begin

section \<open>Values of the Python runtime\<close>

text \<open>
  The exceptions that the code of \<^verbatim>\<open>legostocker/sets.py\<close> and the library calls it makes
  can raise. A failing call is a value \<open>Inl e\<close>; a returning call is \<open>Inr v\<close>.
  \<open>FileNotFoundError\<close>, \<open>PermissionError\<close>, \<open>ParserError\<close> and \<open>EmptyDataError\<close> are
  what \<^verbatim>\<open>pandas.read_csv\<close> raises; the others come from the lookup and from
  operations on an object of the wrong kind.
\<close>

datatype error =
    KeyError
  | AttributeError
  | ValueError
  | OverflowError
  | AssertionError
  | IndexError
  | TypeError
  | FileNotFoundError
  | PermissionError
  | ParserError
  | EmptyDataError

text \<open>
  A cell of a data frame as \<^verbatim>\<open>pandas.read_csv\<close> produces it: a \<^verbatim>\<open>str\<close>, an integer, a
  boolean, a finite float (its exact value, a rational; \<open>CFloat 0\<close> is \<^verbatim>\<open>0.0\<close>), the float
  \<^verbatim>\<open>-0.0\<close>, an infinite float (\<open>CInf True\<close> is \<^verbatim>\<open>-inf\<close>) or the missing value \<^verbatim>\<open>NaN\<close>.
  A character is a code point below 256.
\<close>

datatype cell =
    CStr string
  | CInt int
  | CBool bool
  | CFloat rat
  | CNegZero
  | CInf bool
  | CNaN

subsection \<open>\<^verbatim>\<open>str(n)\<close> of an integer\<close>

definition digit_char :: "nat \<Rightarrow> char" where
  "digit_char d = ''0123456789'' ! d"

fun nat_digits :: "nat \<Rightarrow> string" where
  "nat_digits n =
     (if n < 10 then [digit_char n] else nat_digits (n div 10) @ [digit_char (n mod 10)])"

declare nat_digits.simps [simp del]

definition str_int :: "int \<Rightarrow> string" where
  "str_int i = (if i < 0 then CHR ''-'' # nat_digits (nat (- i)) else nat_digits (nat i))"

subsection \<open>\<^verbatim>\<open>int(s)\<close> of a string\<close>

text \<open>
  \<^verbatim>\<open>int(s)\<close> in base 10: surrounding whitespace is dropped, one sign is allowed, then
  come decimal digits, where single underscores may stand between two digits. Anything
  else raises \<^verbatim>\<open>ValueError\<close>. The whitespace \<^verbatim>\<open>int\<close> drops is the ASCII one (tab to carriage
  return, and the space) and, of the other code points below 256, the next-line and
  the no-break space; the separators 28 to 31 are not dropped. The number of digits is not bounded (newer interpreters
  refuse more than 4300 of them).
\<close>

definition is_space :: "char \<Rightarrow> bool" where
  "is_space c =
     (let k = (of_char c :: nat)
      in (9 \<le> k \<and> k \<le> 13) \<or> k = 32 \<or> k = 133 \<or> k = 160)"

definition is_digit :: "char \<Rightarrow> bool" where
  "is_digit c = (let k = (of_char c :: nat) in 48 \<le> k \<and> k \<le> 57)"

definition digit_val :: "char \<Rightarrow> nat" where
  "digit_val c = of_char c - 48"

definition strip :: "string \<Rightarrow> string" where
  "strip s = rev (dropWhile is_space (rev (dropWhile is_space s)))"

text \<open>\<open>digits_acc a cs\<close>: the digits read so far have the value \<open>a\<close>, and \<open>cs\<close> remains.\<close>

fun digits_acc :: "nat \<Rightarrow> string \<Rightarrow> nat option" where
  "digits_acc a [] = Some a"
| "digits_acc a [c] = (if is_digit c then Some (10 * a + digit_val c) else None)"
| "digits_acc a (c # d # ds) =
     (if is_digit c then digits_acc (10 * a + digit_val c) (d # ds)
      else if c = CHR ''_'' \<and> is_digit d then digits_acc (10 * a + digit_val d) ds
      else None)"

definition unsigned_of_string :: "string \<Rightarrow> error + nat" where
  "unsigned_of_string s =
     (case s of
        [] \<Rightarrow> Inl ValueError
      | c # cs \<Rightarrow>
          if is_digit c then
            (case digits_acc (digit_val c) cs of
               None \<Rightarrow> Inl ValueError
             | Some n \<Rightarrow> Inr n)
          else Inl ValueError)"

definition int_of_string :: "string \<Rightarrow> error + int" where
  "int_of_string s =
     (case strip s of
        [] \<Rightarrow> Inl ValueError
      | c # cs \<Rightarrow>
          if c = CHR ''-'' then map_sum id (\<lambda>n. - int n) (unsigned_of_string cs)
          else if c = CHR ''+'' then map_sum id int (unsigned_of_string cs)
          else map_sum id int (unsigned_of_string (c # cs)))"

subsection \<open>\<^verbatim>\<open>int(v)\<close> and \<^verbatim>\<open>str(v)\<close> of a cell\<close>

definition float_to_int :: "rat \<Rightarrow> int" where
  "float_to_int r = (if 0 \<le> r then \<lfloor>r\<rfloor> else \<lceil>r\<rceil>)"

fun py_int :: "cell \<Rightarrow> error + int" where
  "py_int (CStr s) = int_of_string s"
| "py_int (CInt i) = Inr i"
| "py_int (CBool b) = Inr (if b then 1 else 0)"
| "py_int (CFloat r) = Inr (float_to_int r)"
| "py_int CNegZero = Inr 0"
| "py_int (CInf _) = Inl OverflowError"
| "py_int CNaN = Inl ValueError"

text \<open>
  The text of a finite float is computed by the Python runtime (the shortest decimal that
  reads back as the same float); it is the parameter \<open>float_repr\<close> of the model. The
  two zeros have their own texts.
\<close>

fun py_str :: "(rat \<Rightarrow> string) \<Rightarrow> cell \<Rightarrow> string" where
  "py_str float_repr (CStr s) = s"
| "py_str float_repr (CInt i) = str_int i"
| "py_str float_repr (CBool b) = (if b then ''True'' else ''False'')"
| "py_str float_repr (CFloat r) = float_repr r"
| "py_str float_repr CNegZero = ''-0.0''"
| "py_str float_repr (CInf neg) = (if neg then ''-inf'' else ''inf'')"
| "py_str float_repr CNaN = ''nan''"

text \<open>\<^verbatim>\<open>s.split('-')[0]\<close>: the text before the first dash, all of \<open>s\<close> when it has none.\<close>

definition split_dash_first :: "string \<Rightarrow> string" where
  "split_dash_first s = takeWhile (\<lambda>c. c \<noteq> CHR ''-'') s"

section \<open>Data frames\<close>

text \<open>
  A \<^verbatim>\<open>pandas.DataFrame\<close> with distinct column labels: the labels, and the rows in table
  order, each row giving the cell under every label. What a row gives outside
  \<open>columns\<close> is never read. A \<^verbatim>\<open>pandas.Series\<close> taken from a frame is one row: a map
  from the labels to cells.
\<close>

record data_frame =
  columns :: "string list"
  rows :: "(string \<Rightarrow> cell) list"

type_synonym series = "string \<rightharpoonup> cell"

text \<open>\<^verbatim>\<open>frame[label]\<close>: the cells of one column, \<^verbatim>\<open>KeyError\<close> for an unknown label.\<close>

definition frame_getitem :: "data_frame \<Rightarrow> string \<Rightarrow> error + cell list" where
  "frame_getitem df label =
     (if label \<in> set (columns df) then Inr (map (\<lambda>r. r label) (rows df))
      else Inl KeyError)"

text \<open>\<^verbatim>\<open>row[label]\<close> on a series.\<close>

definition series_getitem :: "series \<Rightarrow> string \<Rightarrow> error + cell" where
  "series_getitem row label = (case row label of None \<Rightarrow> Inl KeyError | Some v \<Rightarrow> Inr v)"

text \<open>
  \<^verbatim>\<open>column.str\<close>: pandas (1.x) infers the kind of the column from its cells, missing
  ones apart, and refuses the accessor with \<^verbatim>\<open>AttributeError\<close> on a column it infers
  as integer, floating, mixed integer and float, or boolean. A column without rows is
  accepted; a column that has rows, all of them missing, is a float column.
\<close>

fun is_number :: "cell \<Rightarrow> bool" where
  "is_number (CInt _) = True"
| "is_number (CFloat _) = True"
| "is_number CNegZero = True"
| "is_number (CInf _) = True"
| "is_number _ = False"

fun is_bool :: "cell \<Rightarrow> bool" where
  "is_bool (CBool _) = True"
| "is_bool _ = False"

definition str_accessor :: "cell list \<Rightarrow> error + cell list" where
  "str_accessor col =
     (let present = filter (\<lambda>v. v \<noteq> CNaN) col
      in if col = [] then Inr col
         else if present = [] \<or> list_all is_number present \<or> list_all is_bool present
         then Inl AttributeError
         else Inr col)"

text \<open>
  \<^verbatim>\<open>column.str.startswith(pat)\<close>: per cell, whether the string starts with \<open>pat\<close>; a
  cell that is no string gives the missing value (\<open>None\<close> here).
\<close>

fun cell_startswith :: "string \<Rightarrow> cell \<Rightarrow> bool option" where
  "cell_startswith pat (CStr s) = Some (prefix pat s)"
| "cell_startswith pat _ = None"

definition str_startswith :: "cell list \<Rightarrow> string \<Rightarrow> bool option list" where
  "str_startswith col pat = map (cell_startswith pat) col"

text \<open>
  \<^verbatim>\<open>frame[mask]\<close>: a new frame with the rows whose mask entry is true, in table order.
  A mask with rows whose entries are all missing is a column of floats, which
  \<^verbatim>\<open>frame[...]\<close> reads as a list of column labels, none of them a label of the frame:
  \<^verbatim>\<open>KeyError\<close>. A mask with missing entries beside booleans is refused with
  \<^verbatim>\<open>ValueError\<close>.
\<close>

definition frame_mask :: "data_frame \<Rightarrow> bool option list \<Rightarrow> error + data_frame" where
  "frame_mask df flags =
     (if flags \<noteq> [] \<and> list_all (\<lambda>m. m = None) flags then Inl KeyError
      else if None \<in> set flags then Inl ValueError
      else Inr (df\<lparr>rows := map snd (filter (\<lambda>(m, r). m = Some True) (zip flags (rows df)))\<rparr>))"

text \<open>\<^verbatim>\<open>frame.iloc[i]\<close> for \<open>i \<ge> 0\<close>: row \<open>i\<close> as a series.\<close>

definition row_series :: "string list \<Rightarrow> (string \<Rightarrow> cell) \<Rightarrow> series" where
  "row_series labels r = (\<lambda>label. if label \<in> set labels then Some (r label) else None)"

definition iloc :: "data_frame \<Rightarrow> nat \<Rightarrow> error + series" where
  "iloc df i =
     (if i < length (rows df) then Inr (row_series (columns df) (rows df ! i))
      else Inl IndexError)"

section \<open>The set store\<close>

record LegoSet =
  set_id :: int
  set_name :: string
  release_year :: "int option"
  part_count :: "int option"

record RebrickableStore =
  sets_frame :: data_frame

definition DATASET_COL_ID :: string where
  "DATASET_COL_ID = ''set_num''"

definition DATASET_COL_NAME :: string where
  "DATASET_COL_NAME = ''name''"

definition DATASET_COL_REL_YEAR :: string where
  "DATASET_COL_REL_YEAR = ''year''"

definition DATASET_COL_PART_COUNT :: string where
  "DATASET_COL_PART_COUNT = ''num_parts''"

text \<open>
  \<^verbatim>\<open>from_csv\<close>: one call of \<^verbatim>\<open>pandas.read_csv\<close>, awaited, then the initializer, whose
  type check accepts the frame the reader returns. There is no handler: an exception
  of the reader is the exception of \<^verbatim>\<open>from_csv\<close>. The reader is a parameter: it takes the
  path and the state \<open>w\<close> of the world outside the program and returns a frame or an
  exception, and the world after the call.
\<close>

definition from_csv ::
  "(string \<Rightarrow> 'w \<Rightarrow> (error + data_frame) \<times> 'w) \<Rightarrow> string \<Rightarrow> 'w \<Rightarrow> (error + RebrickableStore) \<times> 'w"
where
  "from_csv reader csv_file w =
     (case reader csv_file w of
        (Inl e, w') \<Rightarrow> (Inl e, w')
      | (Inr frame, w') \<Rightarrow> (Inr \<lparr>sets_frame = frame\<rparr>, w'))"

text \<open>
  \<^verbatim>\<open>_pdrow_to_set\<close>. The argument is what \<^verbatim>\<open>by_id\<close> passes: \<open>Inr\<close> a series, or \<open>Inl\<close> a
  frame, on which the first assertion fails. The keyword arguments are evaluated in
  the order written, and the first exception ends the call. The values are an
  \<^verbatim>\<open>int\<close>, a \<^verbatim>\<open>str\<close> and two \<^verbatim>\<open>int\<close>s, which the record type accepts as they are.
\<close>

definition pdrow_to_set :: "(rat \<Rightarrow> string) \<Rightarrow> data_frame + series \<Rightarrow> error + LegoSet" where
  "pdrow_to_set float_repr arg =
     (case arg of
        Inl frame \<Rightarrow> Inl AssertionError
      | Inr row \<Rightarrow>
     (case series_getitem row DATASET_COL_ID of
        Inl e \<Rightarrow> Inl e
      | Inr (CStr ident) \<Rightarrow>
          (case int_of_string (split_dash_first ident) of
             Inl e \<Rightarrow> Inl e
           | Inr sid \<Rightarrow>
          (case series_getitem row DATASET_COL_NAME of
             Inl e \<Rightarrow> Inl e
           | Inr name_cell \<Rightarrow>
          (case series_getitem row DATASET_COL_REL_YEAR of
             Inl e \<Rightarrow> Inl e
           | Inr year_cell \<Rightarrow>
          (case py_int year_cell of
             Inl e \<Rightarrow> Inl e
           | Inr year \<Rightarrow>
          (case series_getitem row DATASET_COL_PART_COUNT of
             Inl e \<Rightarrow> Inl e
           | Inr parts_cell \<Rightarrow>
          (case py_int parts_cell of
             Inl e \<Rightarrow> Inl e
           | Inr parts \<Rightarrow>
               Inr \<lparr>set_id = sid, set_name = py_str float_repr name_cell,
                    release_year = Some year, part_count = Some parts\<rparr>))))))
      | Inr _ \<Rightarrow> Inl AssertionError))"

text \<open>
  The rows \<^verbatim>\<open>by_id\<close> selects: the column read, the accessor, the mask and the masked
  frame of its first statement.
\<close>

definition searched_set :: "RebrickableStore \<Rightarrow> int \<Rightarrow> error + data_frame" where
  "searched_set self sid =
     (case frame_getitem (sets_frame self) DATASET_COL_ID of
        Inl e \<Rightarrow> Inl e
      | Inr col \<Rightarrow>
     (case str_accessor col of
        Inl e \<Rightarrow> Inl e
      | Inr col' \<Rightarrow> frame_mask (sets_frame self) (str_startswith col' (str_int sid))))"

text \<open>
  \<^verbatim>\<open>by_id\<close>: \<open>Inr None\<close> is the absence, \<open>Inr (Some s)\<close> a record, \<open>Inl e\<close> an exception.
  The argument is an integer, on which \<^verbatim>\<open>LegoSetID(set_id)\<close> is the identity.
\<close>

definition by_id :: "(rat \<Rightarrow> string) \<Rightarrow> RebrickableStore \<Rightarrow> int \<Rightarrow> error + LegoSet option" where
  "by_id float_repr self sid =
     (case searched_set self sid of
        Inl e \<Rightarrow> Inl e
      | Inr found \<Rightarrow>
          if length (rows found) \<le> 0 then Inr None
          else
            (case (if length (rows found) > 0 then map_sum id Inr (iloc found 0)
                   else Inr (Inl found)) of
               Inl e \<Rightarrow> Inl e
             | Inr arg \<Rightarrow> map_sum id Some (pdrow_to_set float_repr arg)))"

text \<open>
  \<open>id_startswith pat r\<close>: the mask entry of the row \<open>r\<close> is true, that is, its identifier
  is a string that starts with \<open>pat\<close>.
\<close>

definition id_startswith :: "string \<Rightarrow> (string \<Rightarrow> cell) \<Rightarrow> bool" where
  "id_startswith pat r = (cell_startswith pat (r DATASET_COL_ID) = Some True)"

section \<open>The store as an object\<close>

text \<open>
  The objects of a run: the store, whose attribute \<^verbatim>\<open>sets_frame\<close> refers to a frame,
  frames, columns, masks and rows. A heap is the list of the objects made so far, a
  reference is a position in it, and making an object appends it. No operation below
  writes at a position that exists: pandas returns a new object from \<^verbatim>\<open>frame[label]\<close>,
  \<^verbatim>\<open>.str.startswith\<close>, \<^verbatim>\<open>frame[mask]\<close> and \<^verbatim>\<open>.iloc[0]\<close>.
\<close>

type_synonym ref = nat

datatype obj =
    StoreObj ref
  | FrameObj data_frame
  | ColumnObj "cell list"
  | MaskObj "bool option list"
  | RowObj series

type_synonym heap = "obj list"

definition alloc :: "obj \<Rightarrow> heap \<Rightarrow> ref \<times> heap" where
  "alloc ob h = (length h, h @ [ob])"

definition deref :: "heap \<Rightarrow> ref \<Rightarrow> obj option" where
  "deref h r = (if r < length h then Some (h ! r) else None)"

text \<open>The result of an operation that makes an object, or raises and makes none.\<close>

definition new_object :: "error + obj \<Rightarrow> heap \<Rightarrow> (error + ref) \<times> heap" where
  "new_object res h =
     (case res of
        Inl e \<Rightarrow> (Inl e, h)
      | Inr ob \<Rightarrow> (case alloc ob h of (r, h') \<Rightarrow> (Inr r, h')))"

text \<open>\<^verbatim>\<open>self.sets_frame\<close>.\<close>

definition get_sets_frame :: "ref \<Rightarrow> heap \<Rightarrow> error + ref" where
  "get_sets_frame self h =
     (case deref h self of Some (StoreObj f) \<Rightarrow> Inr f | _ \<Rightarrow> Inl AttributeError)"

text \<open>\<^verbatim>\<open>frame[label]\<close>, \<^verbatim>\<open>column.str.startswith(pat)\<close>, \<^verbatim>\<open>frame[mask]\<close>, \<^verbatim>\<open>len(frame)\<close>, \<^verbatim>\<open>frame.iloc[i]\<close>.\<close>

definition op_frame_getitem :: "ref \<Rightarrow> string \<Rightarrow> heap \<Rightarrow> (error + ref) \<times> heap" where
  "op_frame_getitem f label h =
     (case deref h f of
        Some (FrameObj df) \<Rightarrow> new_object (map_sum id ColumnObj (frame_getitem df label)) h
      | _ \<Rightarrow> (Inl TypeError, h))"

definition op_str_startswith :: "ref \<Rightarrow> string \<Rightarrow> heap \<Rightarrow> (error + ref) \<times> heap" where
  "op_str_startswith c pat h =
     (case deref h c of
        Some (ColumnObj col) \<Rightarrow>
          new_object (map_sum id (\<lambda>col'. MaskObj (str_startswith col' pat)) (str_accessor col)) h
      | _ \<Rightarrow> (Inl AttributeError, h))"

definition op_frame_mask :: "ref \<Rightarrow> ref \<Rightarrow> heap \<Rightarrow> (error + ref) \<times> heap" where
  "op_frame_mask f m h =
     (case deref h f of
        Some (FrameObj df) \<Rightarrow>
          (case deref h m of
             Some (MaskObj flags) \<Rightarrow> new_object (map_sum id FrameObj (frame_mask df flags)) h
           | _ \<Rightarrow> (Inl KeyError, h))
      | _ \<Rightarrow> (Inl TypeError, h))"

definition op_len :: "ref \<Rightarrow> heap \<Rightarrow> error + nat" where
  "op_len f h =
     (case deref h f of Some (FrameObj df) \<Rightarrow> Inr (length (rows df)) | _ \<Rightarrow> Inl TypeError)"

definition op_iloc :: "ref \<Rightarrow> nat \<Rightarrow> heap \<Rightarrow> (error + ref) \<times> heap" where
  "op_iloc f i h =
     (case deref h f of
        Some (FrameObj df) \<Rightarrow> new_object (map_sum id RowObj (iloc df i)) h
      | _ \<Rightarrow> (Inl AttributeError, h))"

text \<open>
  \<^verbatim>\<open>_pdrow_to_set\<close> on a reference: it reads the row and makes the record, which is
  returned as a value (two records are equal when their fields are).
\<close>

definition op_pdrow_to_set :: "(rat \<Rightarrow> string) \<Rightarrow> ref \<Rightarrow> heap \<Rightarrow> error + LegoSet" where
  "op_pdrow_to_set float_repr r h =
     (case deref h r of
        Some (RowObj row) \<Rightarrow> pdrow_to_set float_repr (Inr row)
      | Some (FrameObj df) \<Rightarrow> pdrow_to_set float_repr (Inl df)
      | _ \<Rightarrow> Inl AssertionError)"

text \<open>
  \<^verbatim>\<open>by_id\<close> statement by statement on the heap. The subscripted \<^verbatim>\<open>self.sets_frame\<close> is
  read first, then the one inside the subscript. The names \<^verbatim>\<open>set_id\<close> and
  \<^verbatim>\<open>searched_set\<close> are local: assigning to them changes no object. When a statement
  raises, the call ends with the heap as it is then.
\<close>

definition by_id_exec ::
  "(rat \<Rightarrow> string) \<Rightarrow> ref \<Rightarrow> int \<Rightarrow> heap \<Rightarrow> (error + LegoSet option) \<times> heap"
where
  "by_id_exec float_repr self sid h =
     (case get_sets_frame self h of
        Inl e \<Rightarrow> (Inl e, h)
      | Inr outer \<Rightarrow>
     (case get_sets_frame self h of
        Inl e \<Rightarrow> (Inl e, h)
      | Inr inner \<Rightarrow>
     (case op_frame_getitem inner DATASET_COL_ID h of
        (Inl e, h1) \<Rightarrow> (Inl e, h1)
      | (Inr c, h1) \<Rightarrow>
     (case op_str_startswith c (str_int sid) h1 of
        (Inl e, h2) \<Rightarrow> (Inl e, h2)
      | (Inr m, h2) \<Rightarrow>
     (case op_frame_mask outer m h2 of
        (Inl e, h3) \<Rightarrow> (Inl e, h3)
      | (Inr found, h3) \<Rightarrow>
     (case op_len found h3 of
        Inl e \<Rightarrow> (Inl e, h3)
      | Inr n \<Rightarrow>
          if n \<le> 0 then (Inr None, h3)
          else
            (case (if n > 0 then op_iloc found 0 h3 else (Inr found, h3)) of
               (Inl e, h4) \<Rightarrow> (Inl e, h4)
             | (Inr row, h4) \<Rightarrow>
                 (map_sum id Some (op_pdrow_to_set float_repr row h4), h4))))))))"

text \<open>
  A caller that issues queries one after the other, each on the heap the query before
  left, and goes on after an exception.
\<close>

fun run_queries ::
  "(rat \<Rightarrow> string) \<Rightarrow> ref \<Rightarrow> int list \<Rightarrow> heap \<Rightarrow> (error + LegoSet option) list \<times> heap"
where
  "run_queries float_repr self [] h = ([], h)"
| "run_queries float_repr self (sid # sids) h =
     (case by_id_exec float_repr self sid h of
        (res, h') \<Rightarrow>
          (case run_queries float_repr self sids h' of
             (ress, h'') \<Rightarrow> (res # ress, h'')))"

section \<open>The reader\<close>

text \<open>
  Modelled from the spec: \<^verbatim>\<open>pandas.read_csv\<close> and the file system, which \<^verbatim>\<open>from_csv\<close>
  calls and which are not among the sources. Section 4.1 of the specification: the
  load fails with \<^verbatim>\<open>NotFound\<close> or \<^verbatim>\<open>IOError\<close> if the path is missing or unreadable, and
  with a \<^verbatim>\<open>ParseError\<close> if the content is not valid delimited tabular text. A path has
  no file, a file that cannot be read, or a file with its text; \<open>parse_table\<close> is the
  parser, a parameter, which gives no frame for text that is not a valid table. The
  world records the paths read.
\<close>

datatype file_entry = Unreadable | Content string

record world =
  files :: "string \<Rightarrow> file_entry option"
  reads :: "string list"

definition read_csv ::
  "(string \<Rightarrow> data_frame option) \<Rightarrow> string \<Rightarrow> world \<Rightarrow> (error + data_frame) \<times> world"
where
  "read_csv parse_table path w =
     ((case files w path of
         None \<Rightarrow> Inl FileNotFoundError
       | Some Unreadable \<Rightarrow> Inl PermissionError
       | Some (Content txt) \<Rightarrow>
           (case parse_table txt of
              None \<Rightarrow> Inl ParserError
            | Some frame \<Rightarrow> Inr frame)),
      w\<lparr>reads := reads w @ [path]\<rparr>)"

section \<open>Example data\<close>

text \<open>
  A row of the rebrickable table with its four columns, and the table of such rows.
  \<open>plain_repr\<close> is the text Python gives a float with an integral value of magnitude
  below \<open>10^16\<close> (\<^verbatim>\<open>str(2001.0) = '2001.0'\<close>); the examples have no float, and use it
  for the parameter \<open>float_repr\<close>.
\<close>

definition sets_columns :: "string list" where
  "sets_columns =
     [DATASET_COL_ID, DATASET_COL_NAME, DATASET_COL_REL_YEAR, DATASET_COL_PART_COUNT]"

definition sets_row :: "cell \<Rightarrow> cell \<Rightarrow> cell \<Rightarrow> cell \<Rightarrow> string \<Rightarrow> cell" where
  "sets_row ident name year parts label =
     (if label = DATASET_COL_ID then ident
      else if label = DATASET_COL_NAME then name
      else if label = DATASET_COL_REL_YEAR then year
      else if label = DATASET_COL_PART_COUNT then parts
      else CNaN)"

definition sets_table :: "(string \<Rightarrow> cell) list \<Rightarrow> RebrickableStore" where
  "sets_table rs = \<lparr>sets_frame = \<lparr>columns = sets_columns, rows = rs\<rparr>\<rparr>"

definition plain_repr :: "rat \<Rightarrow> string" where
  "plain_repr r = str_int (float_to_int r) @ ''.0''"

text \<open>The heap after construction: the frame of a table, and the store that refers to it.\<close>

definition sets_heap :: "(string \<Rightarrow> cell) list \<Rightarrow> heap" where
  "sets_heap rs = [FrameObj \<lparr>columns = sets_columns, rows = rs\<rparr>, StoreObj 0]"

section \<open>The row scan\<close>

lemma mask_rows:
  "map snd (filter (\<lambda>(m, r). m = Some True) (zip (map f rs) rs)) =
     filter (\<lambda>r. f r = Some True) rs"
  by (induction rs) auto

lemma cell_startswith_None: "(cell_startswith pat v = None) = (\<nexists>s. v = CStr s)"
  by (cases v) auto

lemma cell_startswith_True:
  "(cell_startswith pat v = Some True) = (\<exists>s. v = CStr s \<and> prefix pat s)"
  by (cases v) auto

lemma str_accessor_strings:
  assumes "\<forall>v\<in>set col. \<exists>s. v = CStr s"
  shows "str_accessor col = Inr col"
proof (cases col)
  case Nil
  then show ?thesis by (simp add: str_accessor_def)
next
  case (Cons v vs)
  with assms obtain s where v: "v = CStr s" by auto
  show ?thesis
    unfolding str_accessor_def Let_def using Cons v by simp
qed

lemma str_accessor_cases: "str_accessor col = Inr col \<or> str_accessor col = Inl AttributeError"
  by (simp add: str_accessor_def Let_def)

lemma startswith_flags:
  "str_startswith (map (\<lambda>r. r label) rs) pat = map (\<lambda>r. cell_startswith pat (r label)) rs"
  by (simp add: str_startswith_def comp_def)

lemma flags_missing:
  "(None \<in> set (map (\<lambda>r. cell_startswith pat (r label)) rs)) =
     (\<not> (\<forall>r\<in>set rs. \<exists>s. r label = CStr s))"
proof -
  have "(None \<in> set (map (\<lambda>r. cell_startswith pat (r label)) rs)) =
      (\<exists>r\<in>set rs. cell_startswith pat (r label) = None)"
    by force
  then show ?thesis by (simp add: cell_startswith_None)
qed

lemma frame_mask_strings:
  assumes "\<forall>r\<in>set (rows df). \<exists>s. r label = CStr s"
  shows "frame_mask df (str_startswith (map (\<lambda>r. r label) (rows df)) pat) =
     Inr (df\<lparr>rows := filter (\<lambda>r. cell_startswith pat (r label) = Some True) (rows df)\<rparr>)"
proof -
  let ?flags = "map (\<lambda>r. cell_startswith pat (r label)) (rows df)"
  have n: "None \<notin> set ?flags"
    using assms by (simp only: flags_missing) simp
  have "\<not> (?flags \<noteq> [] \<and> list_all (\<lambda>m. m = None) ?flags)"
  proof
    assume a: "?flags \<noteq> [] \<and> list_all (\<lambda>m. m = None) ?flags"
    then obtain m where "m \<in> set ?flags" by (cases ?flags) auto
    with a have "None \<in> set ?flags" by (auto simp: list_all_iff)
    with n show False by contradiction
  qed
  with n show ?thesis
    unfolding frame_mask_def startswith_flags mask_rows by simp
qed

lemma frame_mask_nonstring:
  assumes "\<not> (\<forall>r\<in>set (rows df). \<exists>s. r label = CStr s)"
  shows "frame_mask df (str_startswith (map (\<lambda>r. r label) (rows df)) pat) = Inl KeyError
    \<or> frame_mask df (str_startswith (map (\<lambda>r. r label) (rows df)) pat) = Inl ValueError"
proof -
  let ?flags = "map (\<lambda>r. cell_startswith pat (r label)) (rows df)"
  have "None \<in> set ?flags"
    using assms by (simp only: flags_missing) simp
  then show ?thesis
    unfolding frame_mask_def startswith_flags by simp
qed

lemma searched_set_strings:
  assumes "DATASET_COL_ID \<in> set (columns (sets_frame self))"
    and "\<forall>r\<in>set (rows (sets_frame self)). \<exists>s. r DATASET_COL_ID = CStr s"
  shows "searched_set self sid =
    Inr ((sets_frame self)\<lparr>rows := filter (id_startswith (str_int sid)) (rows (sets_frame self))\<rparr>)"
proof -
  let ?col = "map (\<lambda>r. r DATASET_COL_ID) (rows (sets_frame self))"
  have f: "id_startswith (str_int sid) =
      (\<lambda>r. cell_startswith (str_int sid) (r DATASET_COL_ID) = Some True)"
    by (simp add: id_startswith_def fun_eq_iff)
  have "str_accessor ?col = Inr ?col"
    using assms(2) by (intro str_accessor_strings) auto
  with assms(1) frame_mask_strings [OF assms(2)] show ?thesis
    by (simp add: searched_set_def frame_getitem_def f)
qed

lemma searched_set_nonstring:
  assumes "DATASET_COL_ID \<in> set (columns (sets_frame self))"
    and "\<not> (\<forall>r\<in>set (rows (sets_frame self)). \<exists>s. r DATASET_COL_ID = CStr s)"
  shows "searched_set self sid = Inl AttributeError \<or> searched_set self sid = Inl KeyError
    \<or> searched_set self sid = Inl ValueError"
proof -
  let ?col = "map (\<lambda>r. r DATASET_COL_ID) (rows (sets_frame self))"
  from str_accessor_cases [of ?col] show ?thesis
  proof
    assume "str_accessor ?col = Inr ?col"
    with assms(1) frame_mask_nonstring [OF assms(2), of "str_int sid"] show ?thesis
      by (auto simp: searched_set_def frame_getitem_def)
  next
    assume "str_accessor ?col = Inl AttributeError"
    with assms(1) show ?thesis
      by (simp add: searched_set_def frame_getitem_def)
  qed
qed

lemma searched_set_Inr:
  assumes "searched_set self sid = Inr found"
  shows "found = (sets_frame self)\<lparr>rows :=
      filter (id_startswith (str_int sid)) (rows (sets_frame self))\<rparr>"
proof (cases "DATASET_COL_ID \<in> set (columns (sets_frame self))")
  case False
  with assms show ?thesis by (simp add: searched_set_def frame_getitem_def)
next
  case col: True
  show ?thesis
  proof (cases "\<forall>r\<in>set (rows (sets_frame self)). \<exists>s. r DATASET_COL_ID = CStr s")
    case True
    with assms searched_set_strings [OF col True, of sid] show ?thesis by simp
  next
    case False
    with assms searched_set_nonstring [OF col False, of sid] show ?thesis by auto
  qed
qed

lemma by_id_found:
  assumes "searched_set self sid = Inr found"
  shows "by_id float_repr self sid =
     (case rows found of
        [] \<Rightarrow> Inr None
      | r # rest \<Rightarrow> map_sum id Some (pdrow_to_set float_repr (Inr (row_series (columns found) r))))"
  using assms by (cases "rows found") (simp_all add: by_id_def iloc_def)

lemma filter_find_Some:
  "find P xs = Some x \<Longrightarrow> \<exists>rest. filter P xs = x # rest"
  by (induction xs) (auto split: if_splits)

section \<open>The lookup\<close>

lemma by_id_scan_error: "searched_set self sid = Inl e \<Longrightarrow> by_id float_repr self sid = Inl e"
  by (simp add: by_id_def)

lemma id_startswith_prefix:
  "id_startswith pat = (\<lambda>r. \<exists>s. r DATASET_COL_ID = CStr s \<and> prefix pat s)"
  by (simp add: id_startswith_def cell_startswith_True fun_eq_iff)

lemma by_id_no_match:
  assumes "DATASET_COL_ID \<in> set (columns (sets_frame self))"
    and "\<forall>r\<in>set (rows (sets_frame self)). \<exists>s. r DATASET_COL_ID = CStr s"
    and "filter (id_startswith (str_int sid)) (rows (sets_frame self)) = []"
  shows "by_id float_repr self sid = Inr None"
  using by_id_found [OF searched_set_strings [OF assms(1,2)], of float_repr sid] assms(3)
  by simp

lemma by_id_first:
  assumes "DATASET_COL_ID \<in> set (columns (sets_frame self))"
    and "\<forall>r\<in>set (rows (sets_frame self)). \<exists>s. r DATASET_COL_ID = CStr s"
    and "filter (id_startswith (str_int sid)) (rows (sets_frame self)) = r # rest"
  shows "by_id float_repr self sid =
    map_sum id Some (pdrow_to_set float_repr (Inr (row_series (columns (sets_frame self)) r)))"
  using by_id_found [OF searched_set_strings [OF assms(1,2)], of float_repr sid] assms(3)
  by simp

lemma pdrow_to_set_Inr:
  assumes "pdrow_to_set float_repr (Inr (row_series labels r)) = Inr s"
  shows "\<exists>ident i y p.
      r DATASET_COL_ID = CStr ident \<and> int_of_string (split_dash_first ident) = Inr i \<and>
      DATASET_COL_NAME \<in> set labels \<and>
      DATASET_COL_REL_YEAR \<in> set labels \<and> py_int (r DATASET_COL_REL_YEAR) = Inr y \<and>
      DATASET_COL_PART_COUNT \<in> set labels \<and> py_int (r DATASET_COL_PART_COUNT) = Inr p \<and>
      s = \<lparr>set_id = i, set_name = py_str float_repr (r DATASET_COL_NAME),
           release_year = Some y, part_count = Some p\<rparr>"
  using assms
  by (auto simp: pdrow_to_set_def series_getitem_def row_series_def
      split: sum.splits cell.splits option.splits if_splits)

lemma pdrow_to_set_wellformed:
  assumes "DATASET_COL_ID \<in> set labels" and "r DATASET_COL_ID = CStr ident"
    and "int_of_string (split_dash_first ident) = Inr i"
    and "DATASET_COL_NAME \<in> set labels"
    and "DATASET_COL_REL_YEAR \<in> set labels" and "py_int (r DATASET_COL_REL_YEAR) = Inr y"
    and "DATASET_COL_PART_COUNT \<in> set labels" and "py_int (r DATASET_COL_PART_COUNT) = Inr p"
  shows "pdrow_to_set float_repr (Inr (row_series labels r)) =
     Inr \<lparr>set_id = i, set_name = py_str float_repr (r DATASET_COL_NAME),
           release_year = Some y, part_count = Some p\<rparr>"
  using assms by (simp add: pdrow_to_set_def series_getitem_def row_series_def)

lemma by_id_Some:
  assumes "by_id float_repr self sid = Inr (Some s)"
  shows "\<exists>r\<in>set (rows (sets_frame self)).
      pdrow_to_set float_repr (Inr (row_series (columns (sets_frame self)) r)) = Inr s"
proof (cases "searched_set self sid")
  case (Inl e)
  with assms show ?thesis by (simp add: by_id_scan_error)
next
  case (Inr found)
  note found = searched_set_Inr [OF Inr]
  show ?thesis
  proof (cases "rows found")
    case Nil
    with assms by_id_found [OF Inr, of float_repr] show ?thesis by simp
  next
    case (Cons r rest)
    with assms by_id_found [OF Inr, of float_repr]
    have "pdrow_to_set float_repr (Inr (row_series (columns found) r)) = Inr s"
      by (cases "pdrow_to_set float_repr (Inr (row_series (columns found) r))") simp_all
    moreover have "r \<in> set (rows (sets_frame self))"
    proof -
      have "r \<in> set (rows found)" using Cons by simp
      then show ?thesis by (subst (asm) found) simp
    qed
    moreover have "columns found = columns (sets_frame self)"
      by (subst found) simp
    ultimately show ?thesis by auto
  qed
qed

section \<open>Queries on the heap\<close>

lemma deref_old: "r < length h \<Longrightarrow> deref (h @ xs) r = deref h r"
  by (simp add: deref_def nth_append)

lemma deref_Some_less: "deref h r = Some ob \<Longrightarrow> r < length h"
  by (simp add: deref_def split: if_splits)

lemma deref_prefix:
  assumes "prefix h h'" and "deref h r = Some ob"
  shows "deref h' r = Some ob"
proof -
  from assms(1) obtain xs where "h' = h @ xs" by (auto simp: prefix_def)
  with deref_old [OF deref_Some_less [OF assms(2)], of xs] assms(2) show ?thesis by simp
qed

lemma new_object_prefix: "new_object res h = (x, h') \<Longrightarrow> prefix h h'"
  by (auto simp: new_object_def alloc_def split: sum.splits)

lemma op_frame_getitem_prefix: "op_frame_getitem f label h = (x, h') \<Longrightarrow> prefix h h'"
  by (auto simp: op_frame_getitem_def split: option.splits obj.splits dest: new_object_prefix)

lemma op_str_startswith_prefix: "op_str_startswith c pat h = (x, h') \<Longrightarrow> prefix h h'"
  by (auto simp: op_str_startswith_def split: option.splits obj.splits dest: new_object_prefix)

lemma op_frame_mask_prefix: "op_frame_mask f m h = (x, h') \<Longrightarrow> prefix h h'"
  by (auto simp: op_frame_mask_def split: option.splits obj.splits dest: new_object_prefix)

lemma op_iloc_prefix: "op_iloc f i h = (x, h') \<Longrightarrow> prefix h h'"
  by (auto simp: op_iloc_def split: option.splits obj.splits dest: new_object_prefix)

lemma by_id_exec_prefix:
  assumes "by_id_exec float_repr self sid h = (res, h')"
  shows "prefix h h'"
proof -
  note trans = prefix_order.trans
  show ?thesis
    using assms unfolding by_id_exec_def
    by (auto split: sum.splits prod.splits if_splits
        dest!: op_frame_getitem_prefix op_str_startswith_prefix op_frame_mask_prefix
          op_iloc_prefix
        intro: trans)
qed

lemma run_queries_prefix:
  "run_queries float_repr self sids h = (ress, h') \<Longrightarrow> prefix h h'"
proof (induction sids arbitrary: h ress h')
  case Nil
  then show ?case by simp
next
  case (Cons sid sids)
  obtain res h1 where one: "by_id_exec float_repr self sid h = (res, h1)"
    by (cases "by_id_exec float_repr self sid h")
  obtain rs h2 where rest: "run_queries float_repr self sids h1 = (rs, h2)"
    by (cases "run_queries float_repr self sids h1")
  from Cons.prems one rest have "h' = h2" by simp
  with by_id_exec_prefix [OF one] Cons.IH [OF rest] show ?case
    by (auto intro: prefix_order.trans)
qed

lemma by_id_exec_result:
  assumes "deref h self = Some (StoreObj f)" and "deref h f = Some (FrameObj df)"
  shows "fst (by_id_exec float_repr self sid h) = by_id float_repr \<lparr>sets_frame = df\<rparr> sid"
proof -
  from assms(2) have f: "f < length h" by (rule deref_Some_less)
  have d: "deref (h @ xs) f = Some (FrameObj df)" for xs
    using deref_old [OF f] assms(2) by simp
  have n: "deref (h @ xs @ [ob]) (length h + length xs) = Some ob" for xs ob
    by (simp add: deref_def nth_append)
  show ?thesis
  proof (cases "frame_getitem df DATASET_COL_ID")
    case (Inl e)
    with assms show ?thesis
      by (simp add: by_id_exec_def by_id_def searched_set_def get_sets_frame_def
          op_frame_getitem_def new_object_def)
  next
    case col: (Inr col)
    show ?thesis
    proof (cases "str_accessor col")
      case (Inl e)
      with assms col n [of "[]"] show ?thesis
        by (simp add: by_id_exec_def by_id_def searched_set_def get_sets_frame_def
            op_frame_getitem_def op_str_startswith_def new_object_def alloc_def)
    next
      case acc: (Inr col')
      show ?thesis
      proof (cases "frame_mask df (str_startswith col' (str_int sid))")
        case (Inl e)
        with assms col acc n [of "[]"] n [of "[ColumnObj col]"] d [of "[ColumnObj col, x]" for x]
        show ?thesis
          by (simp add: by_id_exec_def by_id_def searched_set_def get_sets_frame_def
              op_frame_getitem_def op_str_startswith_def op_frame_mask_def
              new_object_def alloc_def)
      next
        case found: (Inr found)
        let ?m = "MaskObj (str_startswith col' (str_int sid))"
        let ?h3 = "h @ [ColumnObj col, ?m, FrameObj found]"
        have scan: "searched_set \<lparr>sets_frame = df\<rparr> sid = Inr found"
          using col acc found by (simp add: searched_set_def)
        have h3: "deref ?h3 (Suc (Suc (length h))) = Some (FrameObj found)"
          by (simp add: deref_def nth_append)
        have h4: "deref (?h3 @ [ob]) (Suc (Suc (Suc (length h)))) = Some ob" for ob
          by (simp add: deref_def nth_append)
        have pre: "by_id_exec float_repr self sid h =
            (case op_len (Suc (Suc (length h))) ?h3 of
               Inl e \<Rightarrow> (Inl e, ?h3)
             | Inr n \<Rightarrow>
                 if n \<le> 0 then (Inr None, ?h3)
                 else
                   (case (if n > 0 then op_iloc (Suc (Suc (length h))) 0 ?h3
                          else (Inr (Suc (Suc (length h))), ?h3)) of
                      (Inl e, h4) \<Rightarrow> (Inl e, h4)
                    | (Inr row, h4) \<Rightarrow>
                        (map_sum id Some (op_pdrow_to_set float_repr row h4), h4)))"
          using assms col acc found n [of "[]"] n [of "[ColumnObj col]"]
            d [of "[ColumnObj col, ?m]"]
          by (simp add: by_id_exec_def get_sets_frame_def
              op_frame_getitem_def op_str_startswith_def op_frame_mask_def
              new_object_def alloc_def)
        show ?thesis
        proof (cases "rows found")
          case Nil
          with h3 show ?thesis
            unfolding pre by (simp add: op_len_def by_id_def scan)
        next
          case (Cons r rest)
          with h3 h4 show ?thesis
            unfolding pre
            by (simp add: op_len_def op_iloc_def iloc_def new_object_def alloc_def
                op_pdrow_to_set_def by_id_def scan)
        qed
      qed
    qed
  qed
qed

section \<open>Evaluation on examples\<close>

lemma nat_digits_small: "n < 10 \<Longrightarrow> nat_digits n = [digit_char n]"
  by (simp add: nat_digits.simps)

lemma nat_digits_large:
  "10 \<le> n \<Longrightarrow> nat_digits n = nat_digits (n div 10) @ [digit_char (n mod 10)]"
  by (subst nat_digits.simps) simp

lemmas text_defs =
  str_int_def nat_digits_small nat_digits_large digit_char_def
  int_of_string_def strip_def is_space_def unsigned_of_string_def is_digit_def digit_val_def
  split_dash_first_def

lemmas label_defs =
  DATASET_COL_ID_def DATASET_COL_NAME_def DATASET_COL_REL_YEAR_def DATASET_COL_PART_COUNT_def

lemmas frame_defs =
  frame_getitem_def series_getitem_def str_accessor_def str_startswith_def frame_mask_def
  row_series_def iloc_def sets_columns_def sets_row_def sets_table_def label_defs

lemmas store_defs =
  pdrow_to_set_def searched_set_def by_id_def id_startswith_def

lemmas heap_defs =
  by_id_exec_def get_sets_frame_def op_frame_getitem_def op_str_startswith_def
  op_frame_mask_def op_len_def op_iloc_def op_pdrow_to_set_def new_object_def alloc_def
  deref_def sets_heap_def

section \<open>The claims\<close>

text \<open>
  Claim C1. The lookup rule is literal string prefix matching. On a store whose
  identifier column exists and holds strings, the rows \<^verbatim>\<open>by_id\<close> selects are exactly the
  rows whose identifier starts with the decimal text of the queried id, in table order,
  and the query gives the absence exactly when no identifier starts with that text.
  The text before the dash is not compared as a number: querying 7 on a table whose
  only row is \<^verbatim>\<open>71-1\<close> selects that row and returns its record.
\<close>

theorem by_id_prefix_rule:
  assumes "DATASET_COL_ID \<in> set (columns (sets_frame self))"
    and "\<forall>r\<in>set (rows (sets_frame self)). \<exists>s. r DATASET_COL_ID = CStr s"
  shows "searched_set self sid =
      Inr ((sets_frame self)\<lparr>rows :=
        filter (\<lambda>r. \<exists>s. r DATASET_COL_ID = CStr s \<and> prefix (str_int sid) s)
          (rows (sets_frame self))\<rparr>)
    \<and> (by_id float_repr self sid = Inr None) =
        (\<forall>r\<in>set (rows (sets_frame self)).
           \<forall>s. r DATASET_COL_ID = CStr s \<longrightarrow> \<not> prefix (str_int sid) s)"
proof -
  let ?P = "\<lambda>r. \<exists>s. r DATASET_COL_ID = CStr s \<and> prefix (str_int sid) s"
  have scan: "searched_set self sid =
      Inr ((sets_frame self)\<lparr>rows := filter ?P (rows (sets_frame self))\<rparr>)"
    using searched_set_strings [OF assms, of sid] by (simp add: id_startswith_prefix)
  have "(by_id float_repr self sid = Inr None) = (filter ?P (rows (sets_frame self)) = [])"
    using by_id_found [OF scan, of float_repr]
    by (cases "filter ?P (rows (sets_frame self))")
       (auto simp: map_sum_def split: sum.splits)
  also have "\<dots> = (\<forall>r\<in>set (rows (sets_frame self)).
      \<forall>s. r DATASET_COL_ID = CStr s \<longrightarrow> \<not> prefix (str_int sid) s)"
    by (auto simp: filter_empty_conv)
  finally show ?thesis using scan by simp
qed

theorem by_id_prefix_rule_witness:
  "searched_set
      (sets_table [sets_row (CStr ''71-1'') (CStr ''Samsonite'') (CInt 1970) (CInt 12)]) 7 =
    Inr \<lparr>columns = sets_columns,
         rows = [sets_row (CStr ''71-1'') (CStr ''Samsonite'') (CInt 1970) (CInt 12)]\<rparr>
   \<and> by_id plain_repr
      (sets_table [sets_row (CStr ''71-1'') (CStr ''Samsonite'') (CInt 1970) (CInt 12)]) 7 =
    Inr (Some \<lparr>set_id = 71, set_name = ''Samsonite'',
               release_year = Some 1970, part_count = Some 12\<rparr>)
   \<and> by_id plain_repr
      (sets_table [sets_row (CStr ''71-1'') (CStr ''Samsonite'') (CInt 1970) (CInt 12)]) 7 \<noteq>
    Inr None"
proof -
  let ?T = "sets_table [sets_row (CStr ''71-1'') (CStr ''Samsonite'') (CInt 1970) (CInt 12)]"
  have c: "DATASET_COL_ID \<in> set (columns (sets_frame ?T))"
    by (simp add: frame_defs)
  have s: "\<forall>r\<in>set (rows (sets_frame ?T)). \<exists>s. r DATASET_COL_ID = CStr s"
    by (simp add: frame_defs)
  have p: "str_int 7 = ''7''"
    by (simp add: text_defs)
  have v: "by_id plain_repr ?T 7 =
      Inr (Some \<lparr>set_id = 71, set_name = ''Samsonite'',
                 release_year = Some 1970, part_count = Some 12\<rparr>)"
    by (simp add: store_defs frame_defs text_defs)
  show ?thesis
    using by_id_prefix_rule [OF c s, of 7 plain_repr] v
    by (simp add: p frame_defs)
qed

text \<open>
  Claim C2. When the first row \<^verbatim>\<open>by_id\<close> matches is well formed, the record it returns
  has as its id the integer read from the identifier's text before the first dash, as
  its name the text of the name cell, and as year and part count the integers of the
  two other cells. For the table with the row \<^verbatim>\<open>"7140-1", "Brick Separator", 2001, 4\<close>,
  \<^verbatim>\<open>by_id(7140)\<close> is the record 7140, Brick Separator, 2001, 4.
\<close>

theorem by_id_wellformed_row:
  assumes "DATASET_COL_ID \<in> set (columns (sets_frame self))"
    and "\<forall>q\<in>set (rows (sets_frame self)). \<exists>s. q DATASET_COL_ID = CStr s"
    and "find (id_startswith (str_int sid)) (rows (sets_frame self)) = Some r"
    and "r DATASET_COL_ID = CStr ident"
    and "int_of_string (split_dash_first ident) = Inr i"
    and "DATASET_COL_NAME \<in> set (columns (sets_frame self))"
    and "DATASET_COL_REL_YEAR \<in> set (columns (sets_frame self))"
    and "py_int (r DATASET_COL_REL_YEAR) = Inr y"
    and "DATASET_COL_PART_COUNT \<in> set (columns (sets_frame self))"
    and "py_int (r DATASET_COL_PART_COUNT) = Inr p"
  shows "by_id float_repr self sid =
     Inr (Some \<lparr>set_id = i, set_name = py_str float_repr (r DATASET_COL_NAME),
                release_year = Some y, part_count = Some p\<rparr>)"
proof -
  from filter_find_Some [OF assms(3)] obtain rest
    where "filter (id_startswith (str_int sid)) (rows (sets_frame self)) = r # rest" ..
  then have "by_id float_repr self sid =
      map_sum id Some
        (pdrow_to_set float_repr (Inr (row_series (columns (sets_frame self)) r)))"
    using assms(1,2) by (rule by_id_first [rotated 2])
  also have "pdrow_to_set float_repr (Inr (row_series (columns (sets_frame self)) r)) =
      Inr \<lparr>set_id = i, set_name = py_str float_repr (r DATASET_COL_NAME),
           release_year = Some y, part_count = Some p\<rparr>"
    using assms(1) assms(4-10) by (rule pdrow_to_set_wellformed)
  finally show ?thesis by simp
qed

theorem by_id_wellformed_row_witness:
  "by_id plain_repr
     (sets_table [sets_row (CStr ''7140-1'') (CStr ''Brick Separator'') (CInt 2001) (CInt 4)])
     7140 =
   Inr (Some \<lparr>set_id = 7140, set_name = ''Brick Separator'',
              release_year = Some 2001, part_count = Some 4\<rparr>)"
proof -
  let ?r = "sets_row (CStr ''7140-1'') (CStr ''Brick Separator'') (CInt 2001) (CInt 4)"
  let ?T = "sets_table [?r]"
  have c: "DATASET_COL_ID \<in> set (columns (sets_frame ?T))"
    "DATASET_COL_NAME \<in> set (columns (sets_frame ?T))"
    "DATASET_COL_REL_YEAR \<in> set (columns (sets_frame ?T))"
    "DATASET_COL_PART_COUNT \<in> set (columns (sets_frame ?T))"
    by (simp_all add: frame_defs)
  have s: "\<forall>q\<in>set (rows (sets_frame ?T)). \<exists>s. q DATASET_COL_ID = CStr s"
    by (simp add: frame_defs)
  have f: "find (id_startswith (str_int 7140)) (rows (sets_frame ?T)) = Some ?r"
    by (simp add: store_defs frame_defs text_defs)
  have i: "?r DATASET_COL_ID = CStr ''7140-1''"
    by (simp add: frame_defs)
  have n: "int_of_string (split_dash_first ''7140-1'') = Inr 7140"
    by (simp add: text_defs)
  have y: "py_int (?r DATASET_COL_REL_YEAR) = Inr 2001"
    by (simp add: frame_defs)
  have p: "py_int (?r DATASET_COL_PART_COUNT) = Inr 4"
    by (simp add: frame_defs)
  have m: "py_str plain_repr (?r DATASET_COL_NAME) = ''Brick Separator''"
    by (simp add: frame_defs)
  show ?thesis
    using by_id_wellformed_row [OF c(1) s f i n c(2) c(3) y c(4) p, of plain_repr]
    by (simp only: m)
qed

text \<open>
  Claim C3. When rows match, \<^verbatim>\<open>by_id\<close> returns what the conversion of the first matching
  row in table order gives, and nothing of the rows before or after it enters the
  result. For a table with the rows \<^verbatim>\<open>1000-1\<close> and \<^verbatim>\<open>1000-2\<close> in that order,
  \<^verbatim>\<open>by_id(1000)\<close> is the record of the first.
\<close>

theorem by_id_first_match:
  assumes "DATASET_COL_ID \<in> set (columns (sets_frame self))"
    and "\<forall>q\<in>set (rows (sets_frame self)). \<exists>s. q DATASET_COL_ID = CStr s"
    and "rows (sets_frame self) = before @ r # after"
    and "\<forall>q\<in>set before. \<not> id_startswith (str_int sid) q"
    and "id_startswith (str_int sid) r"
  shows "by_id float_repr self sid =
     map_sum id Some
       (pdrow_to_set float_repr (Inr (row_series (columns (sets_frame self)) r)))"
proof -
  have "filter (id_startswith (str_int sid)) (rows (sets_frame self)) =
      r # filter (id_startswith (str_int sid)) after"
    using assms(3-5) by simp
  with assms(1,2) show ?thesis by (rule by_id_first)
qed

theorem by_id_first_match_witness:
  "by_id plain_repr
     (sets_table
       [sets_row (CStr ''1000-1'') (CStr ''Gears'') (CInt 1965) (CInt 43),
        sets_row (CStr ''1000-2'') (CStr ''Community Vehicles'') (CInt 1980) (CInt 165)])
     1000 =
   Inr (Some \<lparr>set_id = 1000, set_name = ''Gears'',
              release_year = Some 1965, part_count = Some 43\<rparr>)"
proof -
  let ?r1 = "sets_row (CStr ''1000-1'') (CStr ''Gears'') (CInt 1965) (CInt 43)"
  let ?r2 = "sets_row (CStr ''1000-2'') (CStr ''Community Vehicles'') (CInt 1980) (CInt 165)"
  let ?T = "sets_table [?r1, ?r2]"
  have c: "DATASET_COL_ID \<in> set (columns (sets_frame ?T))"
    by (simp add: frame_defs)
  have s: "\<forall>q\<in>set (rows (sets_frame ?T)). \<exists>s. q DATASET_COL_ID = CStr s"
    by (simp add: frame_defs)
  have t: "rows (sets_frame ?T) = [] @ ?r1 # [?r2]"
    by (simp add: frame_defs)
  have b: "\<forall>q\<in>set []. \<not> id_startswith (str_int 1000) q"
    by simp
  have m: "id_startswith (str_int 1000) ?r1"
    by (simp add: store_defs frame_defs text_defs)
  have v: "map_sum id Some
       (pdrow_to_set plain_repr (Inr (row_series (columns (sets_frame ?T)) ?r1))) =
     Inr (Some \<lparr>set_id = 1000, set_name = ''Gears'',
                release_year = Some 1965, part_count = Some 43\<rparr>)"
    by (simp add: store_defs frame_defs text_defs)
  show ?thesis
    using by_id_first_match [OF c s t b m, of plain_repr] by (simp only: v)
qed

text \<open>
  Claim C4. On a store whose identifier column exists and holds strings, a query for an
  integer \<open>n\<close> whose decimal text starts no identifier returns the absence \<open>None\<close>, a
  value and not an exception. This holds for every integer, so for every positive one.
\<close>

theorem by_id_absent:
  assumes "DATASET_COL_ID \<in> set (columns (sets_frame self))"
    and "\<forall>q\<in>set (rows (sets_frame self)). \<exists>s. q DATASET_COL_ID = CStr s"
    and "\<forall>q\<in>set (rows (sets_frame self)).
           \<forall>s. q DATASET_COL_ID = CStr s \<longrightarrow> \<not> prefix (str_int n) s"
  shows "by_id float_repr self n = Inr None"
proof -
  have "filter (id_startswith (str_int n)) (rows (sets_frame self)) = []"
    using assms(3) by (auto simp: filter_empty_conv id_startswith_prefix)
  with assms(1,2) show ?thesis by (rule by_id_no_match)
qed

theorem by_id_absent_witness:
  "0 < (8::int) \<and>
   by_id plain_repr
     (sets_table [sets_row (CStr ''7140-1'') (CStr ''Brick Separator'') (CInt 2001) (CInt 4)])
     8 = Inr None"
proof -
  let ?T = "sets_table [sets_row (CStr ''7140-1'') (CStr ''Brick Separator'') (CInt 2001) (CInt 4)]"
  have c: "DATASET_COL_ID \<in> set (columns (sets_frame ?T))"
    by (simp add: frame_defs)
  have s: "\<forall>q\<in>set (rows (sets_frame ?T)). \<exists>s. q DATASET_COL_ID = CStr s"
    by (simp add: frame_defs)
  have n: "\<forall>q\<in>set (rows (sets_frame ?T)).
           \<forall>s. q DATASET_COL_ID = CStr s \<longrightarrow> \<not> prefix (str_int 8) s"
    by (simp add: frame_defs text_defs)
  show ?thesis
    using by_id_absent [OF c s n, of plain_repr] by simp
qed

text \<open>
  Claim C5. Construction through \<^verbatim>\<open>from_csv\<close> fails with \<^verbatim>\<open>FileNotFoundError\<close> when the path
  has no file, with \<^verbatim>\<open>PermissionError\<close> (an \<^verbatim>\<open>IOError\<close>) when the file cannot be read, and
  with \<^verbatim>\<open>ParserError\<close> when its text is not a valid table. The file is read once, with no
  second attempt, and \<^verbatim>\<open>from_csv\<close> handles no exception: whatever a reader raises is
  what \<^verbatim>\<open>from_csv\<close> raises.
\<close>

theorem from_csv_failures:
  "(files w path = None \<longrightarrow>
      fst (from_csv (read_csv parse_table) path w) = Inl FileNotFoundError)
   \<and> (files w path = Some Unreadable \<longrightarrow>
      fst (from_csv (read_csv parse_table) path w) = Inl PermissionError)
   \<and> (\<forall>txt. files w path = Some (Content txt) \<and> parse_table txt = None \<longrightarrow>
      fst (from_csv (read_csv parse_table) path w) = Inl ParserError)
   \<and> snd (from_csv (read_csv parse_table) path w) = w\<lparr>reads := reads w @ [path]\<rparr>
   \<and> (\<forall>reader e v v'. reader path v = (Inl e, v') \<longrightarrow> from_csv reader path v = (Inl e, v'))"
proof -
  have r: "from_csv (read_csv parse_table) path w =
      (map_sum id (\<lambda>frame. \<lparr>sets_frame = frame\<rparr>) (fst (read_csv parse_table path w)),
       w\<lparr>reads := reads w @ [path]\<rparr>)"
    by (cases "fst (read_csv parse_table path w)") (simp_all add: from_csv_def read_csv_def)
  have 1: "files w path = None \<longrightarrow>
      fst (from_csv (read_csv parse_table) path w) = Inl FileNotFoundError"
    by (simp add: r read_csv_def)
  have 2: "files w path = Some Unreadable \<longrightarrow>
      fst (from_csv (read_csv parse_table) path w) = Inl PermissionError"
    by (simp add: r read_csv_def)
  have 3: "\<forall>txt. files w path = Some (Content txt) \<and> parse_table txt = None \<longrightarrow>
      fst (from_csv (read_csv parse_table) path w) = Inl ParserError"
    by (simp add: r read_csv_def)
  have 4: "snd (from_csv (read_csv parse_table) path w) = w\<lparr>reads := reads w @ [path]\<rparr>"
    by (simp add: r)
  have 5: "\<forall>reader e v v'. reader path v = (Inl e, v') \<longrightarrow>
      from_csv reader path v = (Inl e, v')"
    by (simp add: from_csv_def)
  from 1 2 3 4 5 show ?thesis by (intro conjI)
qed

theorem from_csv_failures_witness:
  "from_csv (read_csv (\<lambda>txt. None)) ''sets.csv'' \<lparr>files = Map.empty, reads = []\<rparr> =
     (Inl FileNotFoundError, \<lparr>files = Map.empty, reads = [''sets.csv'']\<rparr>)
   \<and> from_csv (read_csv (\<lambda>txt. None)) ''sets.csv''
       \<lparr>files = [''sets.csv'' \<mapsto> Content ''no table''], reads = []\<rparr> =
     (Inl ParserError,
      \<lparr>files = [''sets.csv'' \<mapsto> Content ''no table''], reads = [''sets.csv'']\<rparr>)"
proof -
  let ?w1 = "\<lparr>files = Map.empty, reads = []\<rparr> :: world"
  let ?w2 = "\<lparr>files = [''sets.csv'' \<mapsto> Content ''no table''], reads = []\<rparr> :: world"
  note t1 = from_csv_failures [of ?w1 "''sets.csv''" "\<lambda>txt. None"]
  note t2 = from_csv_failures [of ?w2 "''sets.csv''" "\<lambda>txt. None"]
  have a: "files ?w1 ''sets.csv'' = None" by simp
  have b: "files ?w2 ''sets.csv'' = Some (Content ''no table'') \<and>
      (\<lambda>txt. None :: data_frame option) ''no table'' = None"
    by simp
  from t1 have "files ?w1 ''sets.csv'' = None \<longrightarrow>
      fst (from_csv (read_csv (\<lambda>txt. None)) ''sets.csv'' ?w1) = Inl FileNotFoundError"
    by (rule conjunct1)
  with a have 1: "fst (from_csv (read_csv (\<lambda>txt. None)) ''sets.csv'' ?w1) = Inl FileNotFoundError"
    by (rule rev_mp)
  from t1 have 2: "snd (from_csv (read_csv (\<lambda>txt. None)) ''sets.csv'' ?w1) =
      ?w1\<lparr>reads := reads ?w1 @ [''sets.csv'']\<rparr>"
    by (elim conjE)
  from t2 have "\<forall>txt. files ?w2 ''sets.csv'' = Some (Content txt) \<and>
        (\<lambda>txt. None :: data_frame option) txt = None \<longrightarrow>
      fst (from_csv (read_csv (\<lambda>txt. None)) ''sets.csv'' ?w2) = Inl ParserError"
    by (elim conjE)
  with b have 3: "fst (from_csv (read_csv (\<lambda>txt. None)) ''sets.csv'' ?w2) = Inl ParserError"
    by (elim allE [of _ "''no table''"] impE) assumption
  from t2 have 4: "snd (from_csv (read_csv (\<lambda>txt. None)) ''sets.csv'' ?w2) =
      ?w2\<lparr>reads := reads ?w2 @ [''sets.csv'']\<rparr>"
    by (elim conjE)
  from 1 2 3 4 show ?thesis
    by (simp add: prod_eq_iff)
qed

text \<open>
  Claim C6. A failure of the conversion of the matched row is the outcome of the
  query: whatever exception \<^verbatim>\<open>_pdrow_to_set\<close> raises on the first matching row, \<^verbatim>\<open>by_id\<close>
  raises, and it returns neither the absence nor a record. In particular the query
  fails when the year or the part count column is not there, or when \<^verbatim>\<open>int()\<close> fails
  on the row's year or part count cell, as it does on a missing value.
\<close>

theorem by_id_conversion_error:
  assumes "DATASET_COL_ID \<in> set (columns (sets_frame self))"
    and "\<forall>q\<in>set (rows (sets_frame self)). \<exists>s. q DATASET_COL_ID = CStr s"
    and "find (id_startswith (str_int sid)) (rows (sets_frame self)) = Some r"
  shows "(\<forall>e. pdrow_to_set float_repr (Inr (row_series (columns (sets_frame self)) r)) = Inl e
            \<longrightarrow> by_id float_repr self sid = Inl e)
    \<and> (DATASET_COL_REL_YEAR \<notin> set (columns (sets_frame self))
         \<or> DATASET_COL_PART_COUNT \<notin> set (columns (sets_frame self))
         \<or> (\<exists>e. py_int (r DATASET_COL_REL_YEAR) = Inl e)
         \<or> (\<exists>e. py_int (r DATASET_COL_PART_COUNT) = Inl e)
        \<longrightarrow> (\<exists>e. by_id float_repr self sid = Inl e))"
proof -
  let ?conv = "pdrow_to_set float_repr (Inr (row_series (columns (sets_frame self)) r))"
  from filter_find_Some [OF assms(3)] obtain rest
    where "filter (id_startswith (str_int sid)) (rows (sets_frame self)) = r # rest" ..
  with assms(1,2) have res: "by_id float_repr self sid = map_sum id Some ?conv"
    by (rule by_id_first)
  have first: "\<forall>e. ?conv = Inl e \<longrightarrow> by_id float_repr self sid = Inl e"
    using res by simp
  have second: "\<exists>e. by_id float_repr self sid = Inl e"
    if bad: "DATASET_COL_REL_YEAR \<notin> set (columns (sets_frame self))
         \<or> DATASET_COL_PART_COUNT \<notin> set (columns (sets_frame self))
         \<or> (\<exists>e. py_int (r DATASET_COL_REL_YEAR) = Inl e)
         \<or> (\<exists>e. py_int (r DATASET_COL_PART_COUNT) = Inl e)"
  proof (cases ?conv)
    case (Inl e)
    with res show ?thesis by simp
  next
    case (Inr s)
    from pdrow_to_set_Inr [OF Inr] bad show ?thesis by auto
  qed
  from first second show ?thesis by blast
qed

theorem by_id_conversion_error_witness:
  "py_int CNaN = Inl ValueError
   \<and> by_id plain_repr
       (sets_table [sets_row (CStr ''7140-1'') (CStr ''Brick Separator'') CNaN (CInt 4)])
       7140 = Inl ValueError
   \<and> by_id plain_repr
       (sets_table
         [sets_row (CStr ''7140-1'') (CStr ''Brick Separator'')
            (CStr [CHR ''1'', CHR ''2'', CHR 0x1F]) (CInt 4)])
       7140 = Inl ValueError"
proof -
  let ?r = "sets_row (CStr ''7140-1'') (CStr ''Brick Separator'') CNaN (CInt 4)"
  let ?T = "sets_table [?r]"
  let ?q = "sets_row (CStr ''7140-1'') (CStr ''Brick Separator'')
      (CStr [CHR ''1'', CHR ''2'', CHR 0x1F]) (CInt 4)"
  let ?U = "sets_table [?q]"
  have c: "DATASET_COL_ID \<in> set (columns (sets_frame ?T))"
    "DATASET_COL_ID \<in> set (columns (sets_frame ?U))"
    by (simp_all add: frame_defs)
  have s: "\<forall>q\<in>set (rows (sets_frame ?T)). \<exists>s. q DATASET_COL_ID = CStr s"
    "\<forall>q\<in>set (rows (sets_frame ?U)). \<exists>s. q DATASET_COL_ID = CStr s"
    by (simp_all add: frame_defs)
  have f: "find (id_startswith (str_int 7140)) (rows (sets_frame ?T)) = Some ?r"
    "find (id_startswith (str_int 7140)) (rows (sets_frame ?U)) = Some ?q"
    by (simp_all add: store_defs frame_defs text_defs)
  have v: "pdrow_to_set plain_repr (Inr (row_series (columns (sets_frame ?T)) ?r)) =
      Inl ValueError"
    by (simp add: store_defs frame_defs text_defs)
  have w: "pdrow_to_set plain_repr (Inr (row_series (columns (sets_frame ?U)) ?q)) =
      Inl ValueError"
    by (simp add: store_defs frame_defs text_defs)
  from by_id_conversion_error [OF c(1) s(1) f(1), of plain_repr]
  have "pdrow_to_set plain_repr (Inr (row_series (columns (sets_frame ?T)) ?r)) =
      Inl ValueError \<longrightarrow> by_id plain_repr ?T 7140 = Inl ValueError"
    by blast
  with v have 1: "by_id plain_repr ?T 7140 = Inl ValueError" by simp
  from by_id_conversion_error [OF c(2) s(2) f(2), of plain_repr]
  have "pdrow_to_set plain_repr (Inr (row_series (columns (sets_frame ?U)) ?q)) =
      Inl ValueError \<longrightarrow> by_id plain_repr ?U 7140 = Inl ValueError"
    by blast
  with w have 2: "by_id plain_repr ?U 7140 = Inl ValueError" by simp
  from 1 2 show ?thesis by simp
qed

text \<open>
  Claim C7, as the code has it. A table with an identifier cell that is not a string
  makes every \<^verbatim>\<open>by_id\<close> query fail, whatever the queried id, so the row is not skipped
  silently. The exception is the one the prefix scan of the identifier column raises,
  before any row is converted, and so it is not the assertion of \<^verbatim>\<open>_pdrow_to_set\<close>: on
  a table holding the integer 7140 as identifier, \<^verbatim>\<open>by_id(7140)\<close> raises
  \<^verbatim>\<open>AttributeError\<close>, not \<^verbatim>\<open>AssertionError\<close>.
\<close>

theorem by_id_nonstring_identifier:
  assumes "DATASET_COL_ID \<in> set (columns (sets_frame self))"
    and "r \<in> set (rows (sets_frame self))"
    and "\<forall>s. r DATASET_COL_ID \<noteq> CStr s"
  shows "\<exists>e. searched_set self sid = Inl e \<and> by_id float_repr self sid = Inl e
    \<and> e \<noteq> AssertionError"
proof -
  have "\<not> (\<forall>q\<in>set (rows (sets_frame self)). \<exists>s. q DATASET_COL_ID = CStr s)"
    using assms(2,3) by blast
  from searched_set_nonstring [OF assms(1) this, of sid]
  show ?thesis
    by (auto dest: by_id_scan_error)
qed

theorem by_id_nonstring_identifier_witness:
  "by_id plain_repr
     (sets_table
       [sets_row (CStr ''7140-1'') (CStr ''Brick Separator'') (CInt 2001) (CInt 4),
        sets_row CNaN (CStr ''Unnumbered'') (CInt 1999) (CInt 1)])
     8 = Inl ValueError
   \<and> by_id plain_repr
     (sets_table
       [sets_row (CInt 7140) (CStr ''Brick Separator'') (CInt 2001) (CInt 4),
        sets_row (CBool True) (CStr ''Unnumbered'') (CInt 1999) (CInt 1)])
     7140 = Inl KeyError"
proof -
  let ?r1 = "sets_row (CStr ''7140-1'') (CStr ''Brick Separator'') (CInt 2001) (CInt 4)"
  let ?r2 = "sets_row CNaN (CStr ''Unnumbered'') (CInt 1999) (CInt 1)"
  let ?T = "sets_table [?r1, ?r2]"
  let ?q1 = "sets_row (CInt 7140) (CStr ''Brick Separator'') (CInt 2001) (CInt 4)"
  let ?q2 = "sets_row (CBool True) (CStr ''Unnumbered'') (CInt 1999) (CInt 1)"
  let ?U = "sets_table [?q1, ?q2]"
  have c: "DATASET_COL_ID \<in> set (columns (sets_frame ?T))"
    "DATASET_COL_ID \<in> set (columns (sets_frame ?U))"
    by (simp_all add: frame_defs)
  have m: "?r2 \<in> set (rows (sets_frame ?T))" "?q1 \<in> set (rows (sets_frame ?U))"
    by (simp_all add: frame_defs)
  have n: "\<forall>s. ?r2 DATASET_COL_ID \<noteq> CStr s" "\<forall>s. ?q1 DATASET_COL_ID \<noteq> CStr s"
    by (simp_all add: frame_defs)
  have s1: "searched_set ?T 8 = Inl ValueError"
    by (simp add: store_defs frame_defs text_defs)
  have s2: "searched_set ?U 7140 = Inl KeyError"
    by (simp add: store_defs frame_defs text_defs)
  from by_id_nonstring_identifier [OF c(1) m(1) n(1), of 8 plain_repr] s1
  have 1: "by_id plain_repr ?T 8 = Inl ValueError" by auto
  from by_id_nonstring_identifier [OF c(2) m(2) n(2), of 7140 plain_repr] s2
  have 2: "by_id plain_repr ?U 7140 = Inl KeyError" by auto
  from 1 2 show ?thesis by simp
qed

theorem by_id_assertion_counterexample:
  "by_id plain_repr
     (sets_table [sets_row (CInt 7140) (CStr ''Brick Separator'') (CInt 2001) (CInt 4)])
     7140 = Inl AttributeError
   \<and> by_id plain_repr
     (sets_table [sets_row (CInt 7140) (CStr ''Brick Separator'') (CInt 2001) (CInt 4)])
     7140 \<noteq> Inl AssertionError"
  by (simp add: store_defs frame_defs text_defs)

text \<open>
  Claim C8. \<^verbatim>\<open>by_id\<close> is deterministic over an unchanged store. For a store made by the
  initializer, a call repeated on the heap the first call left returns what the
  first returned, and so does a call made after any sequence of other queries: record,
  absence or exception. The objects the earlier calls made do not enter the result.
\<close>

theorem by_id_deterministic:
  assumes "deref h self = Some (StoreObj f)" and "deref h f = Some (FrameObj df)"
  shows "fst (by_id_exec float_repr self sid (snd (by_id_exec float_repr self sid h))) =
      fst (by_id_exec float_repr self sid h)
    \<and> fst (by_id_exec float_repr self sid (snd (run_queries float_repr self sids h))) =
      fst (by_id_exec float_repr self sid h)"
proof -
  have same: "fst (by_id_exec float_repr self sid h') = fst (by_id_exec float_repr self sid h)"
    if "prefix h h'" for h'
  proof -
    from that assms have "deref h' self = Some (StoreObj f)" "deref h' f = Some (FrameObj df)"
      by (auto intro: deref_prefix)
    then have "fst (by_id_exec float_repr self sid h') = by_id float_repr \<lparr>sets_frame = df\<rparr> sid"
      by (rule by_id_exec_result)
    with by_id_exec_result [OF assms, of float_repr sid] show ?thesis by simp
  qed
  have "prefix h (snd (by_id_exec float_repr self sid h))"
    by (rule by_id_exec_prefix [of float_repr self sid h "fst (by_id_exec float_repr self sid h)"]) simp
  moreover have "prefix h (snd (run_queries float_repr self sids h))"
    by (rule run_queries_prefix [of float_repr self sids h "fst (run_queries float_repr self sids h)"]) simp
  ultimately show ?thesis using same by blast
qed

theorem by_id_deterministic_witness:
  "fst (by_id_exec plain_repr 1 7140
      (snd (run_queries plain_repr 1 [8, 7140]
        (sets_heap [sets_row (CStr ''7140-1'') (CStr ''Brick Separator'') (CInt 2001) (CInt 4)])))) =
   Inr (Some \<lparr>set_id = 7140, set_name = ''Brick Separator'',
              release_year = Some 2001, part_count = Some 4\<rparr>)"
proof -
  let ?r = "sets_row (CStr ''7140-1'') (CStr ''Brick Separator'') (CInt 2001) (CInt 4)"
  let ?h = "sets_heap [?r]"
  have s: "deref ?h 1 = Some (StoreObj 0)"
    by (simp add: deref_def sets_heap_def)
  have f: "deref ?h 0 = Some (FrameObj \<lparr>columns = sets_columns, rows = [?r]\<rparr>)"
    by (simp add: deref_def sets_heap_def)
  have v: "fst (by_id_exec plain_repr 1 7140 ?h) =
      Inr (Some \<lparr>set_id = 7140, set_name = ''Brick Separator'',
                 release_year = Some 2001, part_count = Some 4\<rparr>)"
    by (simp add: heap_defs store_defs frame_defs text_defs)
  from by_id_deterministic [OF s f, of plain_repr 7140 "[8, 7140]"] v
  show ?thesis by simp
qed

text \<open>
  Claim C9. A query leaves every object that exists as it was: after a call of
  \<^verbatim>\<open>by_id\<close>, and after any sequence of calls, whatever they return or raise, the heap
  before is an initial part of the heap after, so the store and the table it refers
  to are the ones before the calls. The calls only make new objects.
\<close>

theorem by_id_store_unchanged:
  "prefix h (snd (by_id_exec float_repr self sid h))
   \<and> prefix h (snd (run_queries float_repr self sids h))
   \<and> (\<forall>r ob. deref h r = Some ob \<longrightarrow>
         deref (snd (by_id_exec float_repr self sid h)) r = Some ob
         \<and> deref (snd (run_queries float_repr self sids h)) r = Some ob)"
proof -
  have 1: "prefix h (snd (by_id_exec float_repr self sid h))"
    by (rule by_id_exec_prefix [of float_repr self sid h "fst (by_id_exec float_repr self sid h)"]) simp
  have 2: "prefix h (snd (run_queries float_repr self sids h))"
    by (rule run_queries_prefix [of float_repr self sids h "fst (run_queries float_repr self sids h)"]) simp
  from 1 2 show ?thesis
    by (auto intro: deref_prefix)
qed

theorem by_id_store_unchanged_witness:
  "deref (snd (run_queries plain_repr 1 [7140, 8]
      (sets_heap [sets_row (CInt 7140) (CStr ''Brick Separator'') (CInt 2001) (CInt 4)]))) 1 =
     Some (StoreObj 0)
   \<and> deref (snd (run_queries plain_repr 1 [7140, 8]
      (sets_heap [sets_row (CInt 7140) (CStr ''Brick Separator'') (CInt 2001) (CInt 4)]))) 0 =
     Some (FrameObj \<lparr>columns = sets_columns,
       rows = [sets_row (CInt 7140) (CStr ''Brick Separator'') (CInt 2001) (CInt 4)]\<rparr>)
   \<and> fst (run_queries plain_repr 1 [7140, 8]
      (sets_heap [sets_row (CInt 7140) (CStr ''Brick Separator'') (CInt 2001) (CInt 4)])) =
     [Inl AttributeError, Inl AttributeError]"
proof -
  let ?r = "sets_row (CInt 7140) (CStr ''Brick Separator'') (CInt 2001) (CInt 4)"
  let ?h = "sets_heap [?r]"
  have s: "deref ?h 1 = Some (StoreObj 0)"
    by (simp add: deref_def sets_heap_def)
  have f: "deref ?h 0 = Some (FrameObj \<lparr>columns = sets_columns, rows = [?r]\<rparr>)"
    by (simp add: deref_def sets_heap_def)
  have v: "fst (run_queries plain_repr 1 [7140, 8] ?h) = [Inl AttributeError, Inl AttributeError]"
    by (simp add: heap_defs store_defs frame_defs text_defs)
  from by_id_store_unchanged [of ?h plain_repr 1 7140 "[7140, 8]"] s f v
  show ?thesis by blast
qed

text \<open>
  Claim C10. A record that \<^verbatim>\<open>by_id\<close> returns has a year and a part count: both fields
  hold the integers that \<^verbatim>\<open>int()\<close> gave for the year and part count cells of a row of
  the table, so neither field is absent and neither cell was a missing value, on
  which \<^verbatim>\<open>int()\<close> raises.
\<close>

theorem by_id_fields_present:
  assumes "by_id float_repr self sid = Inr (Some s)"
  shows "\<exists>r\<in>set (rows (sets_frame self)). \<exists>y p.
      py_int (r DATASET_COL_REL_YEAR) = Inr y \<and> py_int (r DATASET_COL_PART_COUNT) = Inr p \<and>
      release_year s = Some y \<and> part_count s = Some p \<and>
      r DATASET_COL_REL_YEAR \<noteq> CNaN \<and> r DATASET_COL_PART_COUNT \<noteq> CNaN"
proof -
  from by_id_Some [OF assms] obtain r
    where r: "r \<in> set (rows (sets_frame self))"
      and conv: "pdrow_to_set float_repr (Inr (row_series (columns (sets_frame self)) r)) = Inr s"
    by blast
  from pdrow_to_set_Inr [OF conv] obtain y p
    where y: "py_int (r DATASET_COL_REL_YEAR) = Inr y"
      and p: "py_int (r DATASET_COL_PART_COUNT) = Inr p"
      and s: "release_year s = Some y" "part_count s = Some p"
    by auto
  from y have "r DATASET_COL_REL_YEAR \<noteq> CNaN" by auto
  moreover from p have "r DATASET_COL_PART_COUNT \<noteq> CNaN" by auto
  ultimately show ?thesis using r y p s by blast
qed

theorem by_id_fields_present_witness:
  "release_year
     \<lparr>set_id = 7140, set_name = ''Brick Separator'',
      release_year = Some 2001, part_count = Some 4\<rparr> \<noteq> None
   \<and> by_id plain_repr
     (sets_table [sets_row (CStr ''7140-1'') (CStr ''Brick Separator'') (CInt 2001) (CInt 4)])
     7140 =
    Inr (Some \<lparr>set_id = 7140, set_name = ''Brick Separator'',
               release_year = Some 2001, part_count = Some 4\<rparr>)"
proof -
  let ?T = "sets_table [sets_row (CStr ''7140-1'') (CStr ''Brick Separator'') (CInt 2001) (CInt 4)]"
  let ?s = "\<lparr>set_id = 7140, set_name = ''Brick Separator'',
      release_year = Some 2001, part_count = Some 4\<rparr>"
  have v: "by_id plain_repr ?T 7140 = Inr (Some ?s)"
    by (simp add: store_defs frame_defs text_defs)
  from by_id_fields_present [OF v] have "release_year ?s \<noteq> None"
    by auto
  with v show ?thesis by simp
qed

end
